theory Spec2Isabelle
  imports Complex_Main "HOL-Library.Multiset"
begin

section \<open>JavaScript values\<close>

text \<open>
  A JavaScript string is a sequence of UTF-16 code units; \<open>.length\<close> counts them and the
  regular expressions of the sources (none has the \<open>u\<close> flag) match them one by one.
  A code unit is a natural number here; \<open>js\<close> turns an ASCII literal into its code units.
\<close>

type_synonym jsstring = "nat list"

definition js :: "string \<Rightarrow> jsstring" where
  "js s = map of_char s"

text \<open>\<open>String(n)\<close> for a non-negative integer \<open>n\<close>: its decimal digits.\<close>

fun numberToString :: "nat \<Rightarrow> jsstring" where
  "numberToString n =
     (if n < 10 then [48 + n] else numberToString (n div 10) @ [48 + n mod 10])"

declare numberToString.simps [simp del]

text \<open>
  A \<open>Date\<close> object: a time value in milliseconds since the epoch, or the invalid date
  (time value \<open>NaN\<close>).
\<close>

datatype jsdate = Date int | InvalidDate

text \<open>
  A \<open>Set\<close> iterates in insertion order and \<open>add\<close> ignores a member it already has:
  a list without repetitions. \<open>newSet xs\<close> is \<open>new Set(xs)\<close>.
\<close>

definition setAdd :: "'a list \<Rightarrow> 'a \<Rightarrow> 'a list" where
  "setAdd s x = (if x \<in> set s then s else s @ [x])"

definition newSet :: "'a list \<Rightarrow> 'a list" where
  "newSet xs = foldl setAdd [] xs"

text \<open>
  A string-valued field that may be absent or \<open>null\<close> is a \<open>jsstring option\<close>.
  \<open>x || d\<close> on such a field yields \<open>d\<close> when the field is absent, \<open>null\<close> or the empty
  string.
\<close>

definition orDefault :: "jsstring option \<Rightarrow> jsstring \<Rightarrow> jsstring" where
  "orDefault x d = (case x of None \<Rightarrow> d | Some s \<Rightarrow> if s = [] then d else s)"

text \<open>
  The code units that \<open>trim()\<close> strips and \<open>\s\<close> matches: the WhiteSpace and
  LineTerminator code points of ECMAScript.
\<close>

definition isWhiteSpace :: "nat \<Rightarrow> bool" where
  "isWhiteSpace c =
     (c \<in> set [9, 10, 11, 12, 13, 32, 160, 5760, 8232, 8233, 8239, 8287, 12288, 65279]
      \<or> (8192 \<le> c \<and> c \<le> 8202))"

definition trim :: "jsstring \<Rightarrow> jsstring" where
  "trim s = rev (dropWhile isWhiteSpace (rev (dropWhile isWhiteSpace s)))"

text \<open>\<open>s.includes(sub)\<close>: \<open>sub\<close> occurs in \<open>s\<close> as a contiguous run.\<close>

fun startsWith :: "jsstring \<Rightarrow> jsstring \<Rightarrow> bool" where
  "startsWith s [] = True"
| "startsWith [] (c # sub) = False"
| "startsWith (d # s) (c # sub) = (d = c \<and> startsWith s sub)"

fun stringIncludes :: "jsstring \<Rightarrow> jsstring \<Rightarrow> bool" where
  "stringIncludes [] sub = (sub = [])"
| "stringIncludes (d # s) sub = (startsWith (d # s) sub \<or> stringIncludes s sub)"

text \<open>
  The property names every object literal inherits from \<open>Object.prototype\<close>. A lookup
  \<open>table[key]\<close> in an object literal finds the inherited member when \<open>key\<close> is one of
  them and the literal has no property of that name.
\<close>

definition objectPrototypeKeys :: "jsstring list" where
  "objectPrototypeKeys =
     map js [''constructor'', ''__defineGetter__'', ''__defineSetter__'', ''hasOwnProperty'',
             ''__lookupGetter__'', ''__lookupSetter__'', ''isPrototypeOf'',
             ''propertyIsEnumerable'', ''toString'', ''valueOf'', ''__proto__'',
             ''toLocaleString'']"

text \<open>
  A number: a finite double, written as the rational it denotes, or one of the three
  non-finite values. Products are exact here; the double product is their rounding, so
  for a finite number with a fractional part the time value of a date made from the
  product can differ from the one computed here by a millisecond. The product of an
  integer below \<open>2^53 / 1000\<close> is exact in both.
\<close>

datatype jsnumber = Finite rat | NaN | PosInfinity | NegInfinity

fun multiply :: "jsnumber \<Rightarrow> rat \<Rightarrow> jsnumber" where
  "multiply (Finite r) k = Finite (r * k)"
| "multiply NaN k = NaN"
| "multiply PosInfinity k = (if k > 0 then PosInfinity else if k < 0 then NegInfinity else NaN)"
| "multiply NegInfinity k = (if k > 0 then NegInfinity else if k < 0 then PosInfinity else NaN)"

text \<open>
  \<open>new Date(t)\<close> for a number \<open>t\<close>: TimeClip makes the time value \<open>NaN\<close> (the invalid
  date) when \<open>t\<close> is not finite or exceeds 8.64e15 in magnitude, and truncates it to an
  integer otherwise. It never throws.
\<close>

fun newDate :: "jsnumber \<Rightarrow> jsdate" where
  "newDate (Finite t) =
     (if \<bar>t\<bar> > 8640000000000000 then InvalidDate
      else Date (if t \<ge> 0 then \<lfloor>t\<rfloor> else \<lceil>t\<rceil>))"
| "newDate NaN = InvalidDate"
| "newDate PosInfinity = InvalidDate"
| "newDate NegInfinity = InvalidDate"

section \<open>The document model (parser.js, content-handlers.js)\<close>

text \<open>
  A content fragment as the handlers of content-handlers.js build it: \<open>contentType\<close> and
  \<open>text\<close> (here \<open>fragText\<close>) always, \<open>language\<close> on code, \<open>title\<close> and \<open>url\<close> on a browsing quote,
  \<open>imageRef\<close> on an image part (\<open>None\<close> is an absent field; for \<open>imageRef\<close> also
  \<open>null\<close>).
\<close>

record contentFragment =
  contentType :: jsstring
  fragText :: jsstring
  language :: "jsstring option"
  fragTitle :: "jsstring option"
  fragUrl :: "jsstring option"
  imageRef :: "jsstring option"

text \<open>The object \<open>parseMessage\<close> returns.\<close>

record message =
  msgId :: jsstring
  authorRole :: jsstring
  contentParts :: "contentFragment list"
  msgCreatedAt :: "jsdate option"
  modelSlug :: "jsstring option"

text \<open>The object \<open>parseConversations\<close> pushes when \<open>metadataOnly\<close> is false.\<close>

record conversation =
  convId :: jsstring
  title :: jsstring
  createdAt :: "jsdate option"
  updatedAt :: "jsdate option"
  messages :: "message list"
  modelSlugs :: "jsstring list"

text \<open>
  \<open>new Set(messages.filter(m => m.modelSlug).map(m => m.modelSlug))\<close>, the expression of
  both \<open>parseConversations\<close> and \<open>makePart\<close>. The filter keeps the truthy slugs: neither
  \<open>null\<close> nor the empty string.
\<close>

definition truthySlug :: "message \<Rightarrow> bool" where
  "truthySlug m = (case modelSlug m of None \<Rightarrow> False | Some s \<Rightarrow> s \<noteq> [])"

definition modelSlugSet :: "message list \<Rightarrow> jsstring list" where
  "modelSlugSet ms = newSet (map (\<lambda>m. the (modelSlug m)) (filter truthySlug ms))"

section \<open>Splitting at message boundaries (splitter.js)\<close>

definition OVERHEAD_PER_MSG :: nat where
  "OVERHEAD_PER_MSG = 50"

definition DEFAULT_MAX_SIZE :: nat where
  "DEFAULT_MAX_SIZE = 90000"

definition makePart :: "conversation \<Rightarrow> message list \<Rightarrow> nat \<Rightarrow> conversation" where
  "makePart original msgs partNum =
     \<lparr> convId = convId original @ js ''_part'' @ numberToString partNum,
       title = title original @ js '' (Part '' @ numberToString partNum @ js '')'',
       createdAt = createdAt original,
       updatedAt = updatedAt original,
       messages = msgs,
       modelSlugs = modelSlugSet msgs \<rparr>"

text \<open>
  \<open>msg.contentParts.reduce((sum, p) => sum + (p.text || '').length, 0) + OVERHEAD_PER_MSG\<close>.
\<close>

definition msgSize :: "message \<Rightarrow> nat" where
  "msgSize msg = foldl (\<lambda>sum p. sum + length (fragText p)) 0 (contentParts msg) + OVERHEAD_PER_MSG"

text \<open>
  The \<open>for\<close> loop of \<open>splitAtMessages\<close> over the messages still to come. Its state is
  \<open>(parts, currentMessages, currentSize, partNum)\<close>. The threshold is a natural number:
  the sizes are, and they exceed a non-negative threshold exactly when they exceed its
  integer part.
\<close>

type_synonym splitState = "conversation list \<times> message list \<times> nat \<times> nat"

fun splitLoop :: "conversation \<Rightarrow> nat \<Rightarrow> message list \<Rightarrow> splitState \<Rightarrow> splitState" where
  "splitLoop conv maxSize [] st = st"
| "splitLoop conv maxSize (msg # rest) (parts, currentMessages, currentSize, partNum) =
     (if currentSize + msgSize msg > maxSize \<and> currentMessages \<noteq> []
      then splitLoop conv maxSize rest
             (parts @ [makePart conv currentMessages partNum], [msg], msgSize msg, partNum + 1)
      else splitLoop conv maxSize rest
             (parts, currentMessages @ [msg], currentSize + msgSize msg, partNum))"

text \<open>The loop from its initial state, and the push of the last open part after it.\<close>

definition splitParts :: "conversation \<Rightarrow> nat \<Rightarrow> conversation list" where
  "splitParts conv maxSize =
     (case splitLoop conv maxSize (messages conv) ([], [], 0, 1) of
        (parts, currentMessages, currentSize, partNum) \<Rightarrow>
          if currentMessages \<noteq> [] then parts @ [makePart conv currentMessages partNum]
          else parts)"

definition splitAtMessages :: "conversation \<Rightarrow> nat \<Rightarrow> conversation list" where
  "splitAtMessages conv maxSize =
     (if messages conv = [] then [conv]
      else if length (splitParts conv maxSize) = 1 then [conv]
      else splitParts conv maxSize)"

text \<open>
  \<open>maybeSplit\<close>; \<open>markdownLength\<close> stands for the length of
  \<open>conversationToMarkdown(conversation)\<close> (markdown-writer.js).
\<close>

definition maybeSplit :: "(conversation \<Rightarrow> nat) \<Rightarrow> conversation \<Rightarrow> nat \<Rightarrow> conversation list" where
  "maybeSplit markdownLength conv maxSize =
     (if markdownLength conv \<le> maxSize then [conv] else splitAtMessages conv maxSize)"

subsection \<open>The loop invariant\<close>

text \<open>
  A state is well formed for the messages \<open>seen\<close> consumed so far when the closed parts
  and the open part hold exactly those messages in order, every closed part is non-empty
  and is \<open>makePart\<close> of its messages under its 1-based position, and \<open>partNum\<close> is the
  position of the open part.
\<close>

definition splitInv :: "conversation \<Rightarrow> message list \<Rightarrow> splitState \<Rightarrow> bool" where
  "splitInv conv seen st =
     (case st of (parts, currentMessages, currentSize, partNum) \<Rightarrow>
        concat (map messages parts) @ currentMessages = seen
        \<and> partNum = Suc (length parts)
        \<and> (\<forall>k < length parts. messages (parts ! k) \<noteq> []
              \<and> parts ! k = makePart conv (messages (parts ! k)) (Suc k)))"

lemma splitInv_step:
  assumes "splitInv conv seen (parts, cur, csize, n)" and "cur \<noteq> []"
  shows "splitInv conv (seen @ [msg]) (parts @ [makePart conv cur n], [msg], sz, n + 1)"
  using assms
  by (auto simp: splitInv_def nth_append makePart_def less_Suc_eq)

lemma splitInv_keep:
  assumes "splitInv conv seen (parts, cur, csize, n)"
  shows "splitInv conv (seen @ [msg]) (parts, cur @ [msg], sz, n)"
  using assms by (auto simp: splitInv_def)

lemma splitLoop_inv:
  "splitInv conv seen st \<Longrightarrow> splitInv conv (seen @ rest) (splitLoop conv maxSize rest st)"
proof (induction rest arbitrary: seen st)
  case Nil
  then show ?case by simp
next
  case (Cons msg rest)
  obtain parts cur csize n where st: "st = (parts, cur, csize, n)"
    by (cases st) auto
  show ?case
  proof (cases "csize + msgSize msg > maxSize \<and> cur \<noteq> []")
    case True
    then have "splitInv conv (seen @ [msg]) (parts @ [makePart conv cur n], [msg], msgSize msg, n + 1)"
      using Cons.prems st splitInv_step by blast
    from Cons.IH [OF this] True show ?thesis by (simp add: st)
  next
    case False
    have "splitInv conv (seen @ [msg]) (parts, cur @ [msg], csize + msgSize msg, n)"
      using Cons.prems st splitInv_keep by blast
    from Cons.IH [OF this] False show ?thesis by (auto simp: st)
  qed
qed

lemma splitInv_init: "splitInv conv [] ([], [], 0, 1)"
  by (simp add: splitInv_def)

lemma splitParts_props:
  "concat (map messages (splitParts conv maxSize)) = messages conv
   \<and> (\<forall>k < length (splitParts conv maxSize).
         messages (splitParts conv maxSize ! k) \<noteq> []
         \<and> splitParts conv maxSize ! k
             = makePart conv (messages (splitParts conv maxSize ! k)) (Suc k))"
proof -
  obtain parts cur csize n where
    run: "splitLoop conv maxSize (messages conv) ([], [], 0, 1) = (parts, cur, csize, n)"
    by (cases "splitLoop conv maxSize (messages conv) ([], [], 0, 1)") auto
  have inv: "splitInv conv (messages conv) (parts, cur, csize, n)"
    using splitLoop_inv [OF splitInv_init, of conv "messages conv" maxSize] run by simp
  show ?thesis
  proof (cases "cur = []")
    case True
    then have "splitParts conv maxSize = parts"
      using run by (simp add: splitParts_def)
    with inv True show ?thesis by (simp add: splitInv_def)
  next
    case False
    then have sp: "splitParts conv maxSize = parts @ [makePart conv cur n]"
      using run by (simp add: splitParts_def)
    from inv False show ?thesis
      unfolding sp by (auto simp: splitInv_def nth_append makePart_def less_Suc_eq)
  qed
qed


lemma splitAtMessages_cases:
  "splitAtMessages conv maxSize = [conv] \<or>
   (messages conv \<noteq> [] \<and> splitAtMessages conv maxSize = splitParts conv maxSize)"
  by (simp add: splitAtMessages_def)

lemma splitParts_part_messages:
  assumes "p \<in> set (splitParts conv maxSize)"
  shows "messages p \<noteq> [] \<and> set (messages p) \<subseteq> set (messages conv)
         \<and> (\<exists>k. p = makePart conv (messages p) k)"
proof -
  from assms obtain k where k: "k < length (splitParts conv maxSize)"
    and p: "p = splitParts conv maxSize ! k"
    by (auto simp: in_set_conv_nth)
  have "set (messages p) \<subseteq> set (concat (map messages (splitParts conv maxSize)))"
    using assms by auto
  then have "set (messages p) \<subseteq> set (messages conv)"
    using splitParts_props [of conv maxSize] by simp
  moreover have "messages p \<noteq> []" and "p = makePart conv (messages p) (Suc k)"
    using splitParts_props [of conv maxSize] k p by auto
  ultimately show ?thesis by blast
qed

lemma set_newSet_aux: "set (foldl setAdd acc xs) = set acc \<union> set xs"
  by (induction xs arbitrary: acc) (auto simp: setAdd_def)

lemma distinct_newSet_aux: "distinct acc \<Longrightarrow> distinct (foldl setAdd acc xs)"
  by (induction xs arbitrary: acc) (auto simp: setAdd_def)

lemma set_newSet: "set (newSet xs) = set xs"
  by (simp add: newSet_def set_newSet_aux)

lemma distinct_newSet: "distinct (newSet xs)"
  by (simp add: newSet_def distinct_newSet_aux)

lemma set_modelSlugSet:
  "set (modelSlugSet ms) = {s. s \<noteq> [] \<and> (\<exists>m \<in> set ms. modelSlug m = Some s)}"
proof -
  have "set (modelSlugSet ms) = (\<lambda>m. the (modelSlug m)) ` {m \<in> set ms. truthySlug m}"
    by (simp add: modelSlugSet_def set_newSet)
  also have "\<dots> = {s. s \<noteq> [] \<and> (\<exists>m \<in> set ms. modelSlug m = Some s)}"
  proof (intro set_eqI iffI)
    fix s assume "s \<in> (\<lambda>m. the (modelSlug m)) ` {m \<in> set ms. truthySlug m}"
    then obtain m where "m \<in> set ms" "truthySlug m" "s = the (modelSlug m)"
      by blast
    then show "s \<in> {s. s \<noteq> [] \<and> (\<exists>m \<in> set ms. modelSlug m = Some s)}"
      by (cases "modelSlug m") (auto simp: truthySlug_def)
  next
    fix s assume "s \<in> {s. s \<noteq> [] \<and> (\<exists>m \<in> set ms. modelSlug m = Some s)}"
    then obtain m where m: "m \<in> set ms" "modelSlug m = Some s" "s \<noteq> []"
      by blast
    then have "truthySlug m" "s = the (modelSlug m)"
      by (simp_all add: truthySlug_def)
    with m(1) show "s \<in> (\<lambda>m. the (modelSlug m)) ` {m \<in> set ms. truthySlug m}"
      by blast
  qed
  finally show ?thesis .
qed

subsection \<open>Example conversations\<close>

definition exampleFragment :: "jsstring \<Rightarrow> contentFragment" where
  "exampleFragment t =
     \<lparr> contentType = js ''text'', fragText = t, language = None, fragTitle = None,
       fragUrl = None, imageRef = None \<rparr>"

definition exampleMessage :: "string \<Rightarrow> string \<Rightarrow> string \<Rightarrow> jsstring option \<Rightarrow> message" where
  "exampleMessage i role t slug =
     \<lparr> msgId = js i, authorRole = js role, contentParts = [exampleFragment (js t)],
       msgCreatedAt = None, modelSlug = slug \<rparr>"

definition exampleMsg1 :: message where
  "exampleMsg1 = exampleMessage ''m1'' ''user'' ''How do I sort a list?'' None"

definition exampleMsg2 :: message where
  "exampleMsg2 = exampleMessage ''m2'' ''assistant'' ''Call sort.'' (Some (js ''gpt-4''))"

definition exampleMsg3 :: message where
  "exampleMsg3 = exampleMessage ''m3'' ''user'' ''Thanks'' None"

definition exampleMessages :: "message list" where
  "exampleMessages = [exampleMsg1, exampleMsg2, exampleMsg3]"

definition exampleConversation :: conversation where
  "exampleConversation =
     \<lparr> convId = js ''c1'', title = js ''Sorting'', createdAt = Some (Date 1700000000000),
       updatedAt = None, messages = exampleMessages, modelSlugs = [js ''gpt-4''] \<rparr>"

section \<open>Properties of the splitter\<close>

text \<open>
  C2. Splitting a conversation that has messages, at any threshold: every returned part
  holds at least one message, and the parts' message lists, concatenated in part order,
  are the conversation's message list. The loop's parts \<open>splitParts\<close> are numbered from 1:
  part \<open>N\<close> has the original id followed by \<open>_partN\<close> and the original title followed by
  \<open> (Part N)\<close>; they are returned as they are unless there is exactly one, and then the
  original conversation is returned unchanged.
\<close>

theorem splitAtMessages_preserves_messages:
  assumes "messages conv \<noteq> []"
  shows "(\<forall>p \<in> set (splitAtMessages conv maxSize). messages p \<noteq> [])
       \<and> concat (map messages (splitAtMessages conv maxSize)) = messages conv
       \<and> (length (splitParts conv maxSize) = 1 \<longrightarrow> splitAtMessages conv maxSize = [conv])
       \<and> (length (splitParts conv maxSize) \<noteq> 1 \<longrightarrow>
            splitAtMessages conv maxSize = splitParts conv maxSize
            \<and> (\<forall>k < length (splitAtMessages conv maxSize).
                  convId (splitAtMessages conv maxSize ! k)
                    = convId conv @ js ''_part'' @ numberToString (Suc k)
                  \<and> title (splitAtMessages conv maxSize ! k)
                    = title conv @ js '' (Part '' @ numberToString (Suc k) @ js '')''))"
proof -
  let ?ps = "splitParts conv maxSize"
  have nonempty: "\<forall>p \<in> set ?ps. messages p \<noteq> []"
    using splitParts_part_messages by blast
  have cat: "concat (map messages ?ps) = messages conv"
    using splitParts_props by blast
  have named: "\<forall>k < length ?ps.
      convId (?ps ! k) = convId conv @ js ''_part'' @ numberToString (Suc k)
      \<and> title (?ps ! k) = title conv @ js '' (Part '' @ numberToString (Suc k) @ js '')''"
  proof (intro allI impI)
    fix k assume "k < length ?ps"
    then have "?ps ! k = makePart conv (messages (?ps ! k)) (Suc k)"
      using splitParts_props [of conv maxSize] by blast
    then have "convId (?ps ! k) = convId (makePart conv (messages (?ps ! k)) (Suc k))"
      and "title (?ps ! k) = title (makePart conv (messages (?ps ! k)) (Suc k))"
      by simp_all
    then show "convId (?ps ! k) = convId conv @ js ''_part'' @ numberToString (Suc k)
      \<and> title (?ps ! k) = title conv @ js '' (Part '' @ numberToString (Suc k) @ js '')''"
      by (simp add: makePart_def)
  qed
  show ?thesis
  proof (cases "length ?ps = 1")
    case True
    then have "splitAtMessages conv maxSize = [conv]"
      by (simp add: splitAtMessages_def)
    with True assms show ?thesis by simp
  next
    case False
    then have "splitAtMessages conv maxSize = ?ps"
      using assms by (simp add: splitAtMessages_def)
    with False nonempty cat named show ?thesis by simp
  qed
qed

lemma example_sizes:
  "msgSize exampleMsg1 = 71" "msgSize exampleMsg2 = 60" "msgSize exampleMsg3 = 56"
  by (simp_all add: exampleMsg1_def exampleMsg2_def exampleMsg3_def exampleMessage_def
      exampleFragment_def msgSize_def OVERHEAD_PER_MSG_def js_def)

lemma example_slugs:
  "modelSlug exampleMsg1 = None" "modelSlug exampleMsg2 = Some (js ''gpt-4'')"
  "modelSlug exampleMsg3 = None"
  by (simp_all add: exampleMsg1_def exampleMsg2_def exampleMsg3_def exampleMessage_def)

lemma example_fields:
  "messages exampleConversation = [exampleMsg1, exampleMsg2, exampleMsg3]"
  "convId exampleConversation = js ''c1''" "title exampleConversation = js ''Sorting''"
  "createdAt exampleConversation = Some (Date 1700000000000)"
  "updatedAt exampleConversation = None" "modelSlugs exampleConversation = [js ''gpt-4'']"
  by (simp_all add: exampleConversation_def exampleMessages_def)

lemma example_parts:
  "splitParts exampleConversation 130 =
     [makePart exampleConversation [exampleMsg1] 1,
      makePart exampleConversation [exampleMsg2, exampleMsg3] 2]"
  by (simp add: splitParts_def example_fields example_sizes numeral_2_eq_2)

lemma example_split:
  "splitAtMessages exampleConversation 130 =
     [makePart exampleConversation [exampleMsg1] 1,
      makePart exampleConversation [exampleMsg2, exampleMsg3] 2]"
  by (simp add: splitAtMessages_def example_parts example_fields)

lemma js_append: "js (a @ b) = js a @ js b"
  by (simp add: js_def)

lemma example_slug_sets:
  "modelSlugSet [exampleMsg1] = []" "modelSlugSet [exampleMsg2, exampleMsg3] = [js ''gpt-4'']"
  "modelSlugSet [exampleMsg1, exampleMsg2, exampleMsg3] = [js ''gpt-4'']"
  by (simp_all add: modelSlugSet_def newSet_def setAdd_def truthySlug_def example_slugs js_def)

theorem splitAtMessages_preserves_messages_witness:
  "messages exampleConversation \<noteq> []
   \<and> length (splitParts exampleConversation 130) = 2
   \<and> map messages (splitAtMessages exampleConversation 130)
       = [[exampleMsg1], [exampleMsg2, exampleMsg3]]
   \<and> concat (map messages (splitAtMessages exampleConversation 130))
       = messages exampleConversation
   \<and> map convId (splitAtMessages exampleConversation 130) = [js ''c1_part1'', js ''c1_part2'']
   \<and> map title (splitAtMessages exampleConversation 130)
       = [js ''Sorting (Part 1)'', js ''Sorting (Part 2)'']"
proof -
  have h: "messages exampleConversation \<noteq> []"
    by (simp add: example_fields)
  have l: "length (splitParts exampleConversation 130) = 2"
    by (simp add: example_parts)
  have n: "numberToString (Suc 0) = js ''1''" "numberToString 2 = js ''2''"
    by (simp_all add: numberToString.simps js_def)
  have ms: "map messages (splitAtMessages exampleConversation 130)
       = [[exampleMsg1], [exampleMsg2, exampleMsg3]]"
    by (simp add: example_split makePart_def)
  have ids: "map convId (splitAtMessages exampleConversation 130)
       = [js ''c1_part1'', js ''c1_part2'']"
    by (simp add: example_split makePart_def n example_fields js_append [symmetric])
  have ts: "map title (splitAtMessages exampleConversation 130)
       = [js ''Sorting (Part 1)'', js ''Sorting (Part 2)'']"
    by (simp add: example_split makePart_def n example_fields js_append [symmetric])
  from splitAtMessages_preserves_messages [OF h, of 130] h l ms ids ts
  show ?thesis by blast
qed

text \<open>
  C10. A conversation as \<open>parseConversations\<close> assembles it has for \<open>modelSlugs\<close> the
  slug set of its own messages, and \<open>parseMessage\<close> never yields the empty string for a
  slug (\<open>metadata.model_slug || metadata.model || null\<close>). Every part that splitting such
  a conversation returns carries the original \<open>createdAt\<close> and \<open>updatedAt\<close>, and its
  \<open>modelSlugs\<close> has no repetition and holds exactly the non-null slugs of the part's
  messages; so it is a subset of the original's \<open>modelSlugs\<close>.
\<close>

theorem splitAtMessages_part_metadata:
  assumes "modelSlugs conv = modelSlugSet (messages conv)"
    and "\<forall>m \<in> set (messages conv). modelSlug m \<noteq> Some []"
    and "p \<in> set (splitAtMessages conv maxSize)"
  shows "createdAt p = createdAt conv \<and> updatedAt p = updatedAt conv
       \<and> distinct (modelSlugs p)
       \<and> set (modelSlugs p) = {s. \<exists>m \<in> set (messages p). modelSlug m = Some s}
       \<and> set (modelSlugs p) \<subseteq> set (modelSlugs conv)"
proof -
  have whole: "distinct (modelSlugs conv)
      \<and> set (modelSlugs conv) = {s. \<exists>m \<in> set (messages conv). modelSlug m = Some s}"
  proof
    show "distinct (modelSlugs conv)"
      unfolding assms(1) by (simp add: modelSlugSet_def distinct_newSet)
    show "set (modelSlugs conv) = {s. \<exists>m \<in> set (messages conv). modelSlug m = Some s}"
      using assms(2) unfolding assms(1) set_modelSlugSet by blast
  qed
  show ?thesis
  proof (cases "p = conv")
    case True
    with whole show ?thesis by simp
  next
    case False
    then have "p \<in> set (splitParts conv maxSize)"
      using assms(3) splitAtMessages_cases [of conv maxSize] by auto
    then obtain k where sub: "set (messages p) \<subseteq> set (messages conv)"
      and p: "p = makePart conv (messages p) k"
      using splitParts_part_messages by blast
    have slugs: "modelSlugs p = modelSlugSet (messages p)"
      and dates: "createdAt p = createdAt conv" "updatedAt p = updatedAt conv"
      by (subst p, simp add: makePart_def)+
    have "set (modelSlugs p) = {s. \<exists>m \<in> set (messages p). modelSlug m = Some s}"
      using assms(2) sub unfolding slugs set_modelSlugSet by blast
    moreover have "distinct (modelSlugs p)"
      unfolding slugs by (simp add: modelSlugSet_def distinct_newSet)
    ultimately show ?thesis
      using dates whole sub by auto
  qed
qed

theorem splitAtMessages_part_metadata_witness:
  "modelSlugs exampleConversation = modelSlugSet (messages exampleConversation)
   \<and> list_all (\<lambda>m. modelSlug m \<noteq> Some []) (messages exampleConversation)
   \<and> map createdAt (splitAtMessages exampleConversation 130)
       = [Some (Date 1700000000000), Some (Date 1700000000000)]
   \<and> map updatedAt (splitAtMessages exampleConversation 130) = [None, None]
   \<and> map modelSlugs (splitAtMessages exampleConversation 130) = [[], [js ''gpt-4'']]"
proof -
  let ?p = "makePart exampleConversation [exampleMsg2, exampleMsg3] 2"
  have h1: "modelSlugs exampleConversation = modelSlugSet (messages exampleConversation)"
    by (simp add: example_fields example_slug_sets)
  have h2: "\<forall>m \<in> set (messages exampleConversation). modelSlug m \<noteq> Some []"
    by (simp add: example_fields example_slugs js_def)
  have h3: "?p \<in> set (splitAtMessages exampleConversation 130)"
    by (simp add: example_split)
  have slugs: "map modelSlugs (splitAtMessages exampleConversation 130) = [[], [js ''gpt-4'']]"
    by (simp add: example_split makePart_def example_slug_sets)
  have h2': "list_all (\<lambda>m. modelSlug m \<noteq> Some []) (messages exampleConversation)"
    using h2 by (simp add: list_all_iff)
  have dates: "map createdAt (splitAtMessages exampleConversation 130)
        = [Some (Date 1700000000000), Some (Date 1700000000000)]"
      "map updatedAt (splitAtMessages exampleConversation 130) = [None, None]"
    by (simp_all add: example_split makePart_def example_fields)
  from splitAtMessages_part_metadata [OF h1 h2 h3] h1 h2' dates slugs
  show ?thesis by blast
qed


section \<open>The export format (parser.js, content-handlers.js)\<close>

text \<open>
  The records of \<open>conversations.json\<close> after \<open>JSON.parse\<close>. \<open>None\<close> is a field that is
  absent or \<open>null\<close>. An entry of a \<open>parts\<close> array is a string, an object, \<open>null\<close>, or
  something else (a number or a boolean).
\<close>

record structuredPart =
  p_content_type :: "jsstring option"
  p_asset_pointer :: "jsstring option"
  p_name :: "jsstring option"
  p_text :: "jsstring option"

datatype part = StringPart jsstring | ObjectPart structuredPart | NullPart | OtherPart

record rawContent =
  content_type :: "jsstring option"
  parts :: "part list option"
  c_text :: "jsstring option"
  c_language :: "jsstring option"
  c_result :: "jsstring option"
  c_title :: "jsstring option"
  c_url :: "jsstring option"

text \<open>
  The value of a \<open>create_time\<close> or \<open>update_time\<close> field, as \<open>parseTimestamp\<close> sees it:
  \<open>TsNullish\<close> is \<open>null\<close> or \<open>undefined\<close>; \<open>TsValue n\<close> is any other value, \<open>n\<close> being
  what \<open>Number(ts)\<close> returns for it (the number itself, 1 for \<open>true\<close>, the number a
  numeric string denotes, \<open>NaN\<close> for a string such as \<open>"abc"\<close> or for an object);
  \<open>TsThrows\<close> is a value on which \<open>Number(ts)\<close> throws (a Symbol; no JSON value).
\<close>

datatype tsInput = TsNullish | TsValue jsnumber | TsThrows

record rawAuthor =
  role :: "jsstring option"

record rawMetadata =
  is_user_system_message :: "bool option"
  model_slug :: "jsstring option"
  model :: "jsstring option"

record rawMessage =
  m_id :: "jsstring option"
  author :: "rawAuthor option"
  content :: "rawContent option"
  m_create_time :: tsInput
  metadata :: "rawMetadata option"

record rawNode =
  parent :: "jsstring option"
  children :: "jsstring list option"
  message :: "rawMessage option"

text \<open>
  A mapping is the list of its entries in the order \<open>Object.entries\<close> yields them. An
  object has each key once, and \<open>mapping[id]\<close> is the entry of that key. (An id that is no
  key but names a member of \<open>Object.prototype\<close> finds that member: it has no
  \<open>children\<close>, \<open>message\<close> or \<open>parent\<close>, so both walks of \<open>traverseTree\<close> end at it
  with the result they have at a missing node.)
\<close>

type_synonym mapping = "(jsstring \<times> rawNode) list"

record rawConv =
  r_id :: "jsstring option"
  r_title :: "jsstring option"
  create_time :: tsInput
  update_time :: tsInput
  mapping :: "mapping option"

section \<open>Content rendering (content-handlers.js)\<close>

definition TEXT :: jsstring where "TEXT = js ''text''"
definition CODE :: jsstring where "CODE = js ''code''"
definition EXECUTION_OUTPUT :: jsstring where "EXECUTION_OUTPUT = js ''execution_output''"
definition BROWSING_DISPLAY :: jsstring where "BROWSING_DISPLAY = js ''tether_browsing_display''"
definition BROWSING_QUOTE :: jsstring where "BROWSING_QUOTE = js ''tether_quote''"
definition MULTIMODAL_TEXT :: jsstring where "MULTIMODAL_TEXT = js ''multimodal_text''"
definition UNKNOWN :: jsstring where "UNKNOWN = js ''unknown''"

definition fragment :: "jsstring \<Rightarrow> jsstring \<Rightarrow> contentFragment" where
  "fragment ct t =
     \<lparr> contentType = ct, fragText = t, language = None, fragTitle = None, fragUrl = None,
       imageRef = None \<rparr>"

definition handleStructuredPart :: "structuredPart \<Rightarrow> contentFragment list" where
  "handleStructuredPart p =
     (let ct = orDefault (p_content_type p) [] in
      if stringIncludes ct (js ''image'') then
        (let pointer = orDefault (p_asset_pointer p) [] in
         [(fragment TEXT (if pointer \<noteq> [] then js ''[Image: '' @ pointer @ js '']''
                          else js ''[Image]''))
            \<lparr> imageRef := (if pointer \<noteq> [] then Some pointer else None) \<rparr>])
      else if ct = js ''file'' \<or> stringIncludes ct (js ''file'') then
        [fragment TEXT (js ''[File: '' @ orDefault (p_name p) (js ''unnamed_file'') @ js '']'')]
      else if orDefault (p_text p) [] \<noteq> [] then
        [fragment TEXT (orDefault (p_text p) [])]
      else [])"

text \<open>The body of the loop that \<open>handleText\<close> and \<open>handleMultimodalText\<close> share.\<close>

fun renderPart :: "part \<Rightarrow> contentFragment list" where
  "renderPart (StringPart s) = (if trim s \<noteq> [] then [fragment TEXT s] else [])"
| "renderPart (ObjectPart p) = handleStructuredPart p"
| "renderPart NullPart = []"
| "renderPart OtherPart = []"

definition partsOf :: "rawContent \<Rightarrow> part list" where
  "partsOf c = (case parts c of None \<Rightarrow> [] | Some ps \<Rightarrow> ps)"

definition handleText :: "rawContent \<Rightarrow> contentFragment list" where
  "handleText c = concat (map renderPart (partsOf c))"

definition handleMultimodalText :: "rawContent \<Rightarrow> contentFragment list" where
  "handleMultimodalText c = concat (map renderPart (partsOf c))"

definition handleCode :: "rawContent \<Rightarrow> contentFragment list" where
  "handleCode c =
     [(fragment CODE (orDefault (c_text c) []))
        \<lparr> language := Some (orDefault (c_language c) (js ''python'')) \<rparr>]"

definition handleExecutionOutput :: "rawContent \<Rightarrow> contentFragment list" where
  "handleExecutionOutput c =
     (let output = orDefault (c_text c) [] in
      if output = [] then [] else [fragment EXECUTION_OUTPUT output])"

definition handleBrowsingDisplay :: "rawContent \<Rightarrow> contentFragment list" where
  "handleBrowsingDisplay c =
     (let result = orDefault (c_result c) [] in
      if result = [] then [] else [fragment BROWSING_DISPLAY result])"

definition handleBrowsingQuote :: "rawContent \<Rightarrow> contentFragment list" where
  "handleBrowsingQuote c =
     [(fragment BROWSING_QUOTE (orDefault (c_text c) []))
        \<lparr> fragTitle := Some (orDefault (c_title c) []),
          fragUrl := Some (orDefault (c_url c) []) \<rparr>]"

fun unknownPart :: "part \<Rightarrow> contentFragment list" where
  "unknownPart (StringPart s) = (if trim s \<noteq> [] then [fragment UNKNOWN s] else [])"
| "unknownPart (ObjectPart p) = []"
| "unknownPart NullPart = []"
| "unknownPart OtherPart = []"

definition handleUnknown :: "rawContent \<Rightarrow> contentFragment list" where
  "handleUnknown c =
     (let ps = partsOf c;
          t = orDefault (c_text c) [];
          ctName = orDefault (content_type c) (js ''unknown'');
          result = (if t \<noteq> [] then [fragment UNKNOWN t]
                    else if ps \<noteq> [] then concat (map unknownPart ps)
                    else [])
      in if result = [] then
           [fragment UNKNOWN (js ''[Unsupported content type: '' @ ctName @ js '']'')]
         else result)"

definition HANDLERS :: "(jsstring \<times> (rawContent \<Rightarrow> contentFragment list)) list" where
  "HANDLERS =
     [(js ''text'', handleText),
      (js ''code'', handleCode),
      (js ''execution_output'', handleExecutionOutput),
      (js ''tether_browsing_display'', handleBrowsingDisplay),
      (js ''tether_quote'', handleBrowsingQuote),
      (js ''multimodal_text'', handleMultimodalText)]"

text \<open>
  \<open>renderContent\<close>. \<open>HANDLERS\<close> is an object literal, so \<open>HANDLERS[contentType]\<close> is
  truthy also for a content type that names a member of \<open>Object.prototype\<close>; that
  member is then called in place of a handler, and the call throws a TypeError
  (\<open>valueOf\<close>, \<open>hasOwnProperty\<close>, ...) or returns something that is not a list of
  fragments (\<open>constructor\<close>, \<open>toString\<close>). The model stops there with \<open>NotAHandler\<close>.
\<close>

datatype renderError = NotAHandler jsstring

definition renderContent :: "rawContent \<Rightarrow> renderError + contentFragment list" where
  "renderContent rawContent =
     (let contentType = orDefault (content_type rawContent) (js ''text'') in
      case map_of HANDLERS contentType of
        Some handler \<Rightarrow> Inr (handler rawContent)
      | None \<Rightarrow>
          if contentType \<in> set objectPrototypeKeys then Inl (NotAHandler contentType)
          else Inr (handleUnknown rawContent))"


subsection \<open>Example payloads\<close>

definition unknownFormatPayload :: rawContent where
  "unknownFormatPayload =
     \<lparr> content_type = Some (js ''unknown_format''), parts = None, c_text = None,
       c_language = None, c_result = None, c_title = None, c_url = None \<rparr>"

definition helloPayload :: "string \<Rightarrow> rawContent" where
  "helloPayload ct =
     \<lparr> content_type = Some (js ct), parts = None, c_text = Some (js ''hello''),
       c_language = None, c_result = None, c_title = None, c_url = None \<rparr>"

section \<open>Properties of content rendering\<close>

lemma js_eq_iff: "js a = js b \<longleftrightarrow> a = b"
  unfolding js_def by (simp add: inj_map_eq_map inj_on_def)

lemma js_Nil: "js a = [] \<longleftrightarrow> a = []" "[] = js a \<longleftrightarrow> a = []"
  by (auto simp: js_def)

text \<open>
  C3, as the code has it. A payload declared \<open>unknown_format\<close> with neither \<open>text\<close> nor
  \<open>parts\<close> renders to exactly one fragment, whose text is
  \<open>[Unsupported content type: unknown_format]\<close>. A payload whose \<open>text\<close> field is a
  non-empty string renders to exactly one fragment carrying that string, for every
  declared content type but three: \<open>text\<close> and \<open>multimodal_text\<close> (also the default of a
  payload that declares no type) render the \<open>parts\<close> array only, and
  \<open>tether_browsing_display\<close> renders the \<open>result\<close> field only. (A declared type that
  names a member of \<open>Object.prototype\<close> reaches no handler at all.)
\<close>

theorem renderContent_text_field:
  "(content_type c = Some (js ''unknown_format'') \<and> c_text c = None \<and> parts c = None \<longrightarrow>
      renderContent c
        = Inr [fragment UNKNOWN (js ''[Unsupported content type: unknown_format]'')])
   \<and> (c_text c = Some t \<and> t \<noteq> []
        \<and> orDefault (content_type c) (js ''text'')
            \<notin> {js ''text'', js ''multimodal_text'', js ''tether_browsing_display''}
        \<and> orDefault (content_type c) (js ''text'') \<notin> set objectPrototypeKeys \<longrightarrow>
      (\<exists>f. renderContent c = Inr [f] \<and> fragText f = t))"
proof (intro conjI impI)
  assume "content_type c = Some (js ''unknown_format'') \<and> c_text c = None \<and> parts c = None"
  then show "renderContent c
      = Inr [fragment UNKNOWN (js ''[Unsupported content type: unknown_format]'')]"
    by (simp add: renderContent_def orDefault_def HANDLERS_def js_eq_iff js_Nil
        objectPrototypeKeys_def handleUnknown_def partsOf_def js_append [symmetric])
next
  assume "c_text c = Some t \<and> t \<noteq> []
        \<and> orDefault (content_type c) (js ''text'')
            \<notin> {js ''text'', js ''multimodal_text'', js ''tether_browsing_display''}
        \<and> orDefault (content_type c) (js ''text'') \<notin> set objectPrototypeKeys"
  then show "\<exists>f. renderContent c = Inr [f] \<and> fragText f = t"
    by (auto simp: renderContent_def Let_def orDefault_def HANDLERS_def handleUnknown_def
        handleCode_def handleExecutionOutput_def handleBrowsingQuote_def fragment_def
        split: option.splits)
qed

theorem renderContent_text_field_witness:
  "content_type unknownFormatPayload = Some (js ''unknown_format'')
   \<and> c_text unknownFormatPayload = None \<and> parts unknownFormatPayload = None
   \<and> renderContent unknownFormatPayload
       = Inr [fragment UNKNOWN (js ''[Unsupported content type: unknown_format]'')]
   \<and> c_text (helloPayload ''code'') = Some (js ''hello'')
   \<and> orDefault (content_type (helloPayload ''code'')) (js ''text'') = js ''code''
   \<and> (\<exists>f. renderContent (helloPayload ''code'') = Inr [f] \<and> fragText f = js ''hello'')"
proof -
  have u: "content_type unknownFormatPayload = Some (js ''unknown_format'')
      \<and> c_text unknownFormatPayload = None \<and> parts unknownFormatPayload = None"
    by (simp add: unknownFormatPayload_def)
  have h: "c_text (helloPayload ''code'') = Some (js ''hello'')"
    and ct: "orDefault (content_type (helloPayload ''code'')) (js ''text'') = js ''code''"
    by (simp_all add: helloPayload_def orDefault_def js_Nil)
  have ok: "js ''hello'' \<noteq> []"
    "js ''code'' \<notin> {js ''text'', js ''multimodal_text'', js ''tether_browsing_display''}"
    "js ''code'' \<notin> set objectPrototypeKeys"
    by (simp_all add: js_eq_iff js_Nil objectPrototypeKeys_def)
  from renderContent_text_field [of unknownFormatPayload "js ''hello''"]
    renderContent_text_field [of "helloPayload ''code''" "js ''hello''"] u h ct ok
  show ?thesis by simp
qed

text \<open>
  The claim as written fails at a payload declared \<open>text\<close> whose \<open>text\<close> field is
  \<open>hello\<close>: \<open>handleText\<close> reads \<open>parts\<close> only, and there is no fragment at all.
\<close>

theorem renderContent_text_field_counterexample:
  "content_type (helloPayload ''text'') = Some (js ''text'')
   \<and> c_text (helloPayload ''text'') = Some (js ''hello'')
   \<and> renderContent (helloPayload ''text'') = Inr []"
  by (simp add: renderContent_def helloPayload_def orDefault_def HANDLERS_def js_eq_iff js_Nil
      handleText_def partsOf_def)


section \<open>Tree traversal and parsing (parser.js)\<close>

definition VALID_ROLES :: "jsstring list" where
  "VALID_ROLES = map js [''user'', ''assistant'', ''system'', ''tool'']"

text \<open>
  \<open>parseTimestamp\<close>. The \<open>catch\<close> branch is the \<open>TsThrows\<close> case; \<open>new Date\<close> itself
  never throws.
\<close>

fun parseTimestamp :: "tsInput \<Rightarrow> jsdate option" where
  "parseTimestamp TsNullish = None"
| "parseTimestamp (TsValue n) = Some (newDate (multiply n 1000))"
| "parseTimestamp TsThrows = None"

subsection \<open>traverseTree\<close>

text \<open>The root search: the first entry whose \<open>parent\<close> is \<open>null\<close> or absent.\<close>

fun findRoot :: "mapping \<Rightarrow> jsstring option" where
  "findRoot [] = None"
| "findRoot ((nodeId, node) # rest) = (if parent node = None then Some nodeId else findRoot rest)"

definition childrenOf :: "rawNode \<Rightarrow> jsstring list" where
  "childrenOf node = (case children node of None \<Rightarrow> [] | Some cs \<Rightarrow> cs)"

text \<open>
  The forward walk \<open>while (true) { ... }\<close> from \<open>leafId\<close>; it returns the id it stops at.
  Nothing bounds it: \<open>None\<close> is a walk that never ends.
\<close>

partial_function (option) walkForward :: "mapping \<Rightarrow> jsstring \<Rightarrow> jsstring option" where
  "walkForward m leafId =
     (case map_of m leafId of
        None \<Rightarrow> Some leafId
      | Some node \<Rightarrow>
          if childrenOf node = [] then Some leafId
          else walkForward m (last (childrenOf node)))"

text \<open>The tests of the backward walk that skip a message, in the order of the source.\<close>

definition roleOf :: "rawMessage \<Rightarrow> jsstring" where
  "roleOf msg = orDefault (case author msg of None \<Rightarrow> None | Some a \<Rightarrow> role a) []"

definition isUserSystem :: "rawMessage \<Rightarrow> bool" where
  "isUserSystem msg =
     (case metadata msg of None \<Rightarrow> False | Some md \<Rightarrow> is_user_system_message md = Some True)"

fun partHasContent :: "part \<Rightarrow> bool" where
  "partHasContent (StringPart s) = (trim s \<noteq> [])"
| "partHasContent (ObjectPart p) = True"
| "partHasContent NullPart = False"
| "partHasContent OtherPart = False"

definition skipMessage :: "rawMessage \<Rightarrow> bool" where
  "skipMessage msg =
     (if roleOf msg = js ''system'' \<and> \<not> isUserSystem msg then True
      else if roleOf msg = js ''tool'' then True
      else (case content msg of
              None \<Rightarrow> True
            | Some c \<Rightarrow>
                (case parts c of
                   None \<Rightarrow> True
                 | Some ps \<Rightarrow>
                     \<not> list_ex partHasContent ps \<and> content_type c = Some (js ''text''))))"

text \<open>What one round of the backward walk pushes for a node.\<close>

definition collect :: "rawNode \<Rightarrow> rawMessage list" where
  "collect node =
     (case message node of
        None \<Rightarrow> []
      | Some msg \<Rightarrow> if skipMessage msg then [] else [msg])"

text \<open>
  The backward walk \<open>while (currentId != null) { ... }\<close>; every path through its body
  ends with \<open>currentId = node.parent\<close>. Nothing bounds it either.
\<close>

partial_function (option) walkBackward ::
    "mapping \<Rightarrow> jsstring option \<Rightarrow> rawMessage list \<Rightarrow> rawMessage list option" where
  "walkBackward m currentId msgs =
     (case currentId of
        None \<Rightarrow> Some msgs
      | Some cid \<Rightarrow>
          (case map_of m cid of
             None \<Rightarrow> Some msgs
           | Some node \<Rightarrow> walkBackward m (parent node) (msgs @ collect node)))"

definition traverseTree :: "mapping \<Rightarrow> rawMessage list option" where
  "traverseTree m =
     (if m = [] then Some []
      else case findRoot m of
             None \<Rightarrow> Some []
           | Some rootId \<Rightarrow>
               (case walkForward m rootId of
                  None \<Rightarrow> None
                | Some leafId \<Rightarrow>
                    (case walkBackward m (Some leafId) [] of
                       None \<Rightarrow> None
                     | Some msgs \<Rightarrow> Some (rev msgs))))"

subsection \<open>parseMessage and parseConversations\<close>

definition emptyContent :: rawContent where
  "emptyContent =
     \<lparr> content_type = None, parts = None, c_text = None, c_language = None, c_result = None,
       c_title = None, c_url = None \<rparr>"

definition slugOf :: "rawMessage \<Rightarrow> jsstring option" where
  "slugOf raw =
     (case metadata raw of
        None \<Rightarrow> None
      | Some md \<Rightarrow>
          (if orDefault (model_slug md) [] \<noteq> [] then model_slug md
           else if orDefault (model md) [] \<noteq> [] then model md
           else None))"

definition parseMessage :: "rawMessage \<Rightarrow> renderError + message" where
  "parseMessage raw =
     (let roleStr = orDefault (case author raw of None \<Rightarrow> None | Some a \<Rightarrow> role a) (js ''user'');
          rawContent = (case content raw of None \<Rightarrow> emptyContent | Some c \<Rightarrow> c)
      in case renderContent rawContent of
           Inl e \<Rightarrow> Inl e
         | Inr fragments \<Rightarrow>
             Inr \<lparr> msgId = orDefault (m_id raw) [],
                   authorRole = (if roleStr \<in> set VALID_ROLES then roleStr else js ''user''),
                   contentParts = fragments,
                   msgCreatedAt = parseTimestamp (m_create_time raw),
                   modelSlug = slugOf raw \<rparr>)"

text \<open>
  \<open>rawMessages.map(parseMessage)\<close>: the first call that throws ends the map. (The
  model also ends it at a content type \<open>constructor\<close> or \<open>toString\<close>, where the
  call returns something that is not a list of fragments and \<open>parseMessage\<close> returns a
  message whose \<open>contentParts\<close> is no array.)
\<close>

fun mapParse :: "rawMessage list \<Rightarrow> renderError + message list" where
  "mapParse [] = Inr []"
| "mapParse (raw # rest) =
     (case parseMessage raw of
        Inl e \<Rightarrow> Inl e
      | Inr msg \<Rightarrow> (case mapParse rest of Inl e \<Rightarrow> Inl e | Inr msgs \<Rightarrow> Inr (msg # msgs)))"

text \<open>
  An outcome of the parser: \<open>None\<close> when it never returns, \<open>Some (Inl e)\<close> when it
  throws, \<open>Some (Inr v)\<close> when it returns \<open>v\<close>. (\<open>filter(Boolean)\<close> keeps every
  message: an object is truthy.)
\<close>

definition traverseAndParse :: "mapping \<Rightarrow> (renderError + message list) option" where
  "traverseAndParse m =
     (if m = [] then Some (Inr [])
      else case traverseTree m of
             None \<Rightarrow> None
           | Some rawMessages \<Rightarrow> Some (mapParse rawMessages))"

record conversationMeta =
  metaId :: jsstring
  metaTitle :: jsstring
  metaCreatedAt :: "jsdate option"
  metaUpdatedAt :: "jsdate option"
  messageCount :: nat
  metaModelSlugs :: "jsstring list"

definition countMessages :: "mapping \<Rightarrow> nat" where
  "countMessages m =
     length (filter (\<lambda>(nodeId, node).
        case message node of
          None \<Rightarrow> False
        | Some msg \<Rightarrow> roleOf msg = js ''user'' \<or> roleOf msg = js ''assistant'') m)"

definition extractModelSlugs :: "mapping \<Rightarrow> jsstring list" where
  "extractModelSlugs m =
     newSet (concat (map (\<lambda>(nodeId, node).
        case message node of
          None \<Rightarrow> []
        | Some msg \<Rightarrow> (case slugOf msg of None \<Rightarrow> [] | Some slug \<Rightarrow> [slug])) m))"

datatype entity = Full conversation | Meta conversationMeta

definition mappingOf :: "rawConv \<Rightarrow> mapping" where
  "mappingOf rawConv = (case mapping rawConv of None \<Rightarrow> [] | Some m \<Rightarrow> m)"

text \<open>One round of the loop of \<open>parseConversations\<close>: the entity it pushes.\<close>

definition parseRecord :: "bool \<Rightarrow> rawConv \<Rightarrow> (renderError + entity) option" where
  "parseRecord metadataOnly rawConv =
     (let convId = orDefault (r_id rawConv) [];
          title = orDefault (r_title rawConv) (js ''Untitled'');
          createdAt = parseTimestamp (create_time rawConv);
          updatedAt = parseTimestamp (update_time rawConv);
          m = mappingOf rawConv
      in if metadataOnly then
           Some (Inr (Meta \<lparr> metaId = convId, metaTitle = title, metaCreatedAt = createdAt,
                              metaUpdatedAt = updatedAt, messageCount = countMessages m,
                              metaModelSlugs = extractModelSlugs m \<rparr>))
         else
           (case traverseAndParse m of
              None \<Rightarrow> None
            | Some (Inl e) \<Rightarrow> Some (Inl e)
            | Some (Inr msgs) \<Rightarrow>
                Some (Inr (Full \<lparr> convId = convId, title = title, createdAt = createdAt,
                                   updatedAt = updatedAt, messages = msgs,
                                   modelSlugs = modelSlugSet msgs \<rparr>))))"

fun parseLoop :: "bool \<Rightarrow> rawConv list \<Rightarrow> entity list \<Rightarrow> (renderError + entity list) option" where
  "parseLoop metadataOnly [] results = Some (Inr results)"
| "parseLoop metadataOnly (rawConv # rest) results =
     (case parseRecord metadataOnly rawConv of
        None \<Rightarrow> None
      | Some (Inl e) \<Rightarrow> Some (Inl e)
      | Some (Inr e) \<Rightarrow> parseLoop metadataOnly rest (results @ [e]))"

definition parseConversations :: "rawConv list \<Rightarrow> bool \<Rightarrow> (renderError + entity list) option" where
  "parseConversations rawData metadataOnly = parseLoop metadataOnly rawData []"

section \<open>Properties of tree traversal\<close>

subsection \<open>The last-child path\<close>







subsection \<open>A mapping whose last-child links cycle\<close>

definition selfLoopNode :: rawNode where
  "selfLoopNode = \<lparr> parent = None, children = Some [js ''a''], message = None \<rparr>"

definition cyclicMapping :: mapping where
  "cyclicMapping = [(js ''a'', selfLoopNode)]"

lemma walkForward_cyclic: "walkForward cyclicMapping (js ''a'') = None"
proof (cases "walkForward cyclicMapping (js ''a'')")
  case None
  then show ?thesis .
next
  case (Some y)
  have "cyclicMapping = cyclicMapping \<and> js ''a'' = js ''a'' \<longrightarrow> False"
  proof (rule walkForward.raw_induct
      [where P = "\<lambda>m k y. m = cyclicMapping \<and> k = js ''a'' \<longrightarrow> False", OF _ Some])
    fix walk m leafId r
    assume IH: "\<And>m k y. walk m k = Some y \<Longrightarrow> m = cyclicMapping \<and> k = js ''a'' \<longrightarrow> False"
      and body: "(case map_of m leafId of
                    None \<Rightarrow> Some leafId
                  | Some node \<Rightarrow>
                      if childrenOf node = [] then Some leafId
                      else walk m (last (childrenOf node))) = Some r"
    show "m = cyclicMapping \<and> leafId = js ''a'' \<longrightarrow> False"
    proof
      assume a: "m = cyclicMapping \<and> leafId = js ''a''"
      with body have "walk cyclicMapping (js ''a'') = Some r"
        by (simp add: cyclicMapping_def selfLoopNode_def childrenOf_def)
      with IH show False by blast
    qed
  qed
  then show ?thesis by simp
qed



subsection \<open>Linear chains\<close>














subsection \<open>Example mappings\<close>







definition cyclicRecord :: rawConv where
  "cyclicRecord =
     \<lparr> r_id = Some (js ''c1''), r_title = Some (js ''Loop''), create_time = TsNullish,
       update_time = TsNullish, mapping = Some cyclicMapping \<rparr>"



subsection \<open>Reconstruction\<close>











section \<open>Properties of parsing\<close>

text \<open>
  What \<open>parseConversations\<close> returns has one entity per input record, a record without
  mapping, with an empty one or with no root gives a conversation without messages, and
  a conversation it returns has the slug set of its own messages, none of them the empty
  string.
\<close>

lemma parseLoop_length:
  "parseLoop metadataOnly rawData results = Some (Inr out) \<Longrightarrow>
   length out = length results + length rawData"
  by (induction rawData arbitrary: results) (auto split: option.splits sum.splits)

lemma parseConversations_length:
  "parseConversations rawData metadataOnly = Some (Inr out) \<Longrightarrow> length out = length rawData"
  using parseLoop_length [of metadataOnly rawData "[]" out] by (simp add: parseConversations_def)

lemma parseRecord_no_tree:
  assumes "mappingOf rawConv = [] \<or> findRoot (mappingOf rawConv) = None"
  shows "\<exists>c. parseRecord False rawConv = Some (Inr (Full c)) \<and> messages c = []"
  using assms
  by (auto simp: parseRecord_def Let_def traverseAndParse_def traverseTree_def)

lemma slugOf_nonempty: "slugOf raw \<noteq> Some []"
  by (auto simp: slugOf_def orDefault_def split: option.splits if_splits)

lemma parseMessage_slug: "parseMessage raw = Inr msg \<Longrightarrow> modelSlug msg \<noteq> Some []"
  by (auto simp: parseMessage_def Let_def slugOf_nonempty split: sum.splits)

lemma mapParse_slugs: "mapParse raws = Inr msgs \<Longrightarrow> \<forall>m \<in> set msgs. modelSlug m \<noteq> Some []"
  by (induction raws arbitrary: msgs) (auto split: sum.splits dest: parseMessage_slug)

lemma parseRecord_assembled:
  assumes "parseRecord False rawConv = Some (Inr (Full c))"
  shows "modelSlugs c = modelSlugSet (messages c) \<and> (\<forall>m \<in> set (messages c). modelSlug m \<noteq> Some [])"
proof -
  from assms obtain msgs where tp: "traverseAndParse (mappingOf rawConv) = Some (Inr msgs)"
    and c: "messages c = msgs" "modelSlugs c = modelSlugSet msgs"
    by (auto simp: parseRecord_def Let_def split: option.splits sum.splits)
  from tp have "\<forall>m \<in> set msgs. modelSlug m \<noteq> Some []"
    using mapParse_slugs by (auto simp: traverseAndParse_def split: if_splits option.splits)
  with c show ?thesis by simp
qed

lemma parseLoop_members:
  "parseLoop metadataOnly rawData results = Some (Inr out) \<Longrightarrow> e \<in> set out \<Longrightarrow>
   e \<in> set results \<or> (\<exists>r \<in> set rawData. parseRecord metadataOnly r = Some (Inr e))"
proof (induction rawData arbitrary: results)
  case Nil
  then show ?case by simp
next
  case (Cons r rest)
  from Cons.prems(1) obtain x where x: "parseRecord metadataOnly r = Some (Inr x)"
    and run: "parseLoop metadataOnly rest (results @ [x]) = Some (Inr out)"
    by (auto split: option.splits sum.splits)
  from Cons.IH [OF run Cons.prems(2)] x show ?case by auto
qed

lemma parseConversations_assembled:
  assumes "parseConversations rawData False = Some (Inr out)" and "Full c \<in> set out"
  shows "modelSlugs c = modelSlugSet (messages c) \<and> (\<forall>m \<in> set (messages c). modelSlug m \<noteq> Some [])"
  using parseLoop_members [of False rawData "[]" out "Full c"] assms parseRecord_assembled
  by (auto simp: parseConversations_def)

text \<open>
  C6. The claim is that parsing returns one entity per record for every input array. At a
  record whose mapping has a node that lists itself as its last child, the forward walk of
  \<open>traverseTree\<close> never ends, and \<open>parseConversations\<close> does not return.
\<close>

theorem parseConversations_cyclic_mapping:
  "parseConversations [cyclicRecord] False = None"
proof -
  have "findRoot cyclicMapping = Some (js ''a'')"
    by (simp add: cyclicMapping_def selfLoopNode_def)
  moreover have ne: "cyclicMapping \<noteq> []"
    by (simp add: cyclicMapping_def)
  ultimately have "traverseTree cyclicMapping = None"
    by (simp add: traverseTree_def walkForward_cyclic)
  with ne have "traverseAndParse cyclicMapping = None"
    by (simp add: traverseAndParse_def)
  then show ?thesis
    by (simp add: parseConversations_def parseRecord_def mappingOf_def cyclicRecord_def)
qed

text \<open>
  C8. The claim is that a value that is unparseable as a number gives \<open>null\<close>. For such
  a value \<open>Number(ts)\<close> is \<open>NaN\<close>, \<open>new Date(NaN)\<close> does not throw, the \<open>catch\<close>
  branch is not taken, and \<open>parseTimestamp\<close> returns the invalid date, which is not
  \<open>null\<close>.
\<close>

theorem parseTimestamp_unparseable:
  "parseTimestamp (TsValue NaN) = Some InvalidDate"
  by simp

lemma parseTimestamp_epoch_seconds:
  "parseTimestamp (TsValue (Finite 1700000000)) = Some (Date 1700000000000)"
  by simp

section \<open>Topic clustering (synthesis/topic-clusterer.js)\<close>

text \<open>
  Steps 1 to 3 of \<open>clusterConversations\<close> score terms with \<open>Math.log\<close> and sort by the
  score; their result, the \<open>Set\<close> of top keywords of each conversation, is the parameter
  \<open>topKeywords\<close> here: \<open>topKeywords i\<close> is \<open>topKeywords[i]\<close>, a list without
  repetition. A cluster \<open>{ indices }\<close> is the list of its indices.

  \<open>jaccardSimilarity\<close> divides two set sizes. The quotient is the exact rational here;
  the double quotient is its rounding, and for sets of fewer than \<open>2^25\<close> members two
  such quotients, or one and the threshold \<open>0.15\<close>, compare as the rationals do.
\<close>

definition SIMILARITY_THRESHOLD :: rat where
  "SIMILARITY_THRESHOLD = 15 / 100"

definition MIN_CLUSTER_SIZE :: nat where
  "MIN_CLUSTER_SIZE = 2"

definition jaccardSimilarity :: "jsstring list \<Rightarrow> jsstring list \<Rightarrow> rat" where
  "jaccardSimilarity setA setB =
     (let intersection = length (filter (\<lambda>item. item \<in> set setB) setA);
          union = length setA + length setB - intersection
      in if union = 0 then 0 else of_nat intersection / of_nat union)"

definition maxPairwiseSimilarity ::
    "nat list \<Rightarrow> nat list \<Rightarrow> (nat \<Rightarrow> jsstring list) \<Rightarrow> rat" where
  "maxPairwiseSimilarity indicesA indicesB topKeywords =
     fold (\<lambda>i maxSim.
        fold (\<lambda>j maxSim.
           let sim = jaccardSimilarity (topKeywords i) (topKeywords j)
           in if sim > maxSim then sim else maxSim) indicesB maxSim) indicesA 0"

definition clusterPairs :: "nat \<Rightarrow> (nat \<times> nat) list" where
  "clusterPairs n = concat (map (\<lambda>i. map (\<lambda>j. (i, j)) [i + 1 ..< n]) [0 ..< n])"

text \<open>The body of the two nested \<open>for\<close> loops, at the pair \<open>(i, j)\<close>.\<close>

fun considerPair ::
    "nat list list \<Rightarrow> (nat \<Rightarrow> jsstring list) \<Rightarrow> nat \<times> nat \<Rightarrow> rat \<times> int \<times> int
     \<Rightarrow> rat \<times> int \<times> int" where
  "considerPair clusters topKeywords (i, j) (bestSim, bestI, bestJ) =
     (let sim = maxPairwiseSimilarity (clusters ! i) (clusters ! j) topKeywords
      in if sim > bestSim then (sim, int i, int j) else (bestSim, bestI, bestJ))"

definition findBest :: "nat list list \<Rightarrow> (nat \<Rightarrow> jsstring list) \<Rightarrow> rat \<times> int \<times> int" where
  "findBest clusters topKeywords =
     fold (considerPair clusters topKeywords) (clusterPairs (length clusters)) (0, -1, -1)"

definition mergeClusters :: "nat list list \<Rightarrow> nat \<Rightarrow> nat \<Rightarrow> nat list list" where
  "mergeClusters clusters bestI bestJ =
     (let pushed = clusters[bestI := clusters ! bestI @ clusters ! bestJ]
      in take bestJ pushed @ drop (Suc bestJ) pushed)"

function mergeLoop :: "nat list list \<Rightarrow> (nat \<Rightarrow> jsstring list) \<Rightarrow> nat list list" where
  "mergeLoop clusters topKeywords =
     (case findBest clusters topKeywords of
        (bestSim, bestI, bestJ) \<Rightarrow>
          if bestSim < SIMILARITY_THRESHOLD \<or> bestI = -1 then clusters
          else mergeLoop (mergeClusters clusters (nat bestI) (nat bestJ)) topKeywords)"
  by pat_completeness auto

lemma clusterPairs_bounds: "(i, j) \<in> set (clusterPairs n) \<Longrightarrow> i < j \<and> j < n"
  by (auto simp: clusterPairs_def)

lemma findBest_fold_range:
  "fold (considerPair clusters topKeywords) ps st = (s, bi, bj) \<Longrightarrow>
   (bi, bj) = snd st \<or> (\<exists>(i, j) \<in> set ps. bi = int i \<and> bj = int j)"
proof (induction ps arbitrary: st)
  case Nil
  then show ?case by auto
next
  case (Cons p ps)
  obtain i j where p: "p = (i, j)" by (cases p)
  obtain s0 i0 j0 where st: "st = (s0, i0, j0)" by (cases st)
  from Cons.prems have "fold (considerPair clusters topKeywords) ps
      (considerPair clusters topKeywords (i, j) (s0, i0, j0)) = (s, bi, bj)"
    by (simp add: p st)
  from Cons.IH [OF this] show ?case
    by (auto simp: p st Let_def split: if_splits)
qed

lemma findBest_range:
  assumes "findBest clusters topKeywords = (s, bi, bj)" and "bi \<noteq> -1"
  shows "0 \<le> bi \<and> bi < bj \<and> nat bj < length clusters"
proof -
  from findBest_fold_range [of clusters topKeywords
      "clusterPairs (length clusters)" "(0, -1, -1)" s bi bj] assms
  obtain i j where "(i, j) \<in> set (clusterPairs (length clusters))" "bi = int i" "bj = int j"
    by (auto simp: findBest_def)
  then show ?thesis using clusterPairs_bounds by fastforce
qed

lemma length_mergeClusters:
  "bestJ < length clusters \<Longrightarrow> length (mergeClusters clusters bestI bestJ) < length clusters"
  by (auto simp: mergeClusters_def Let_def)

termination mergeLoop
proof (relation "measure (\<lambda>(clusters, topKeywords). length clusters)")
  show "wf (measure (\<lambda>(clusters, topKeywords). length clusters))" by simp
next
  fix clusters :: "nat list list" and topKeywords :: "nat \<Rightarrow> jsstring list"
    and bestSim :: rat and y :: "int \<times> int" and bestI bestJ :: int
  assume "(bestSim, y) = findBest clusters topKeywords" "(bestI, bestJ) = y"
    and "\<not> (bestSim < SIMILARITY_THRESHOLD \<or> bestI = - 1)"
  then have "findBest clusters topKeywords = (bestSim, bestI, bestJ)" "bestI \<noteq> -1"
    by auto
  then have "nat bestJ < length clusters" using findBest_range by blast
  then show "((mergeClusters clusters (nat bestI) (nat bestJ), topKeywords), clusters, topKeywords)
      \<in> measure (\<lambda>(clusters, topKeywords). length clusters)"
    by (simp add: length_mergeClusters)
qed

declare mergeLoop.simps [simp del]

definition agglomerativeCluster :: "'c list \<Rightarrow> (nat \<Rightarrow> jsstring list) \<Rightarrow> nat list list" where
  "agglomerativeCluster conversations topKeywords =
     (let clusters = mergeLoop (map (\<lambda>i. [i]) [0 ..< length conversations]) topKeywords;
          realClusters = filter (\<lambda>c. length c \<ge> MIN_CLUSTER_SIZE) clusters;
          singles = filter (\<lambda>c. length c < MIN_CLUSTER_SIZE) clusters
      in if length singles > 0 then realClusters @ [concat singles] else realClusters)"

lemma mset_concat_mergeClusters:
  assumes "i < j" "j < length cl"
  shows "mset (concat (mergeClusters cl i j)) = mset (concat cl)"
proof -
  let ?pushed = "cl[i := cl ! i @ cl ! j]"
  have lp: "j < length ?pushed" using assms by simp
  have "mset (concat ?pushed) = mset (concat (take j ?pushed @ [?pushed ! j] @ drop (Suc j) ?pushed))"
    using id_take_nth_drop [OF lp] by simp
  then have a: "mset (concat ?pushed) = mset (concat (mergeClusters cl i j)) + mset (cl ! j)"
    using assms by (simp add: mergeClusters_def)
  have li: "i < length cl" using assms by simp
  have "cl = take i cl @ [cl ! i] @ drop (Suc i) cl"
    using id_take_nth_drop [OF li] by simp
  then have "mset (concat cl) = mset (concat (take i cl)) + mset (cl ! i) + mset (concat (drop (Suc i) cl))"
    by (metis append_Cons append_Nil concat.simps(2) concat_append mset_append union_assoc)
  moreover have "?pushed = take i cl @ [cl ! i @ cl ! j] @ drop (Suc i) cl"
    using li by (simp add: upd_conv_take_nth_drop)
  then have "mset (concat ?pushed) = mset (concat (take i cl)) + mset (cl ! i) + mset (cl ! j) + mset (concat (drop (Suc i) cl))"
    by (simp add: ac_simps)
  ultimately have "mset (concat ?pushed) = mset (concat cl) + mset (cl ! j)"
    by (simp add: ac_simps)
  with a show ?thesis by simp
qed

lemma mset_concat_mergeLoop:
  "mset (concat (mergeLoop clusters topKeywords)) = mset (concat clusters)"
proof (induction clusters topKeywords rule: mergeLoop.induct)
  case (1 clusters topKeywords)
  obtain bestSim bestI bestJ where best: "findBest clusters topKeywords = (bestSim, bestI, bestJ)"
    by (cases "findBest clusters topKeywords") auto
  show ?case
  proof (cases "bestSim < SIMILARITY_THRESHOLD \<or> bestI = -1")
    case True
    then show ?thesis by (subst mergeLoop.simps) (simp add: best)
  next
    case False
    then have r: "0 \<le> bestI" "bestI < bestJ" "nat bestJ < length clusters"
      using findBest_range [OF best] by auto
    have "mset (concat (mergeLoop clusters topKeywords))
        = mset (concat (mergeLoop (mergeClusters clusters (nat bestI) (nat bestJ)) topKeywords))"
      using False by (subst mergeLoop.simps) (simp add: best)
    also have "\<dots> = mset (concat (mergeClusters clusters (nat bestI) (nat bestJ)))"
      using "1.IH" [OF best [symmetric] refl] False by simp
    also have "\<dots> = mset (concat clusters)"
      using r by (intro mset_concat_mergeClusters) auto
    finally show ?thesis .
  qed
qed

lemma mset_concat_filter_split:
  "mset (concat (filter P xs)) + mset (concat (filter (\<lambda>x. \<not> P x) xs)) = mset (concat xs)"
  by (induction xs) auto

lemma concat_singletons: "concat (map (\<lambda>i. [i]) xs) = xs"
  by (induction xs) auto

lemma mset_agglomerativeCluster:
  "mset (concat (agglomerativeCluster conversations topKeywords)) = mset [0 ..< length conversations]"
proof -
  let ?cl = "mergeLoop (map (\<lambda>i. [i]) [0 ..< length conversations]) topKeywords"
  let ?P = "\<lambda>c. length c \<ge> MIN_CLUSTER_SIZE"
  have neg: "(\<lambda>c. length c < MIN_CLUSTER_SIZE) = (\<lambda>c. \<not> ?P c)"
    by (auto simp: not_le)
  have "mset (concat (agglomerativeCluster conversations topKeywords))
      = mset (concat (filter ?P ?cl)) + mset (concat (filter (\<lambda>c. \<not> ?P c) ?cl))"
    unfolding agglomerativeCluster_def Let_def neg by simp
  also have "\<dots> = mset (concat ?cl)"
    by (rule mset_concat_filter_split)
  also have "\<dots> = mset [0 ..< length conversations]"
    by (simp add: mset_concat_mergeLoop concat_singletons del: mset_upt)
  finally show ?thesis .
qed

subsection \<open>Labels\<close>

text \<open>
  \<open>TOPIC_TEMPLATES[keyword]\<close> is a lookup in an object literal: for a keyword that
  names a member of \<open>Object.prototype\<close> it is that member (truthy, and no string), and
  \<open>generateLabel\<close> returns it. \<open>toUpperCase\<close> is the parameter of that name.

  \<open>getClusterKeywords\<close> counts in an object and reads it back with \<open>Object.entries\<close>:
  keys that are array indices first, in ascending order, then the others in insertion
  order; the sort by count is stable. For a term that names a member of
  \<open>Object.prototype\<close> the count starts from the inherited member and is a string, the
  comparator yields \<open>NaN\<close>, and the order of the result is left to the implementation:
  \<open>None\<close> here.
\<close>

definition TOPIC_TEMPLATES :: "(jsstring \<times> jsstring) list" where
  "TOPIC_TEMPLATES =
     map (\<lambda>(k, v). (js k, js v))
       [(''python'', ''Your Python Projects''),
        (''javascript'', ''Your JavaScript Projects''),
        (''typescript'', ''Your TypeScript Projects''),
        (''react'', ''Your React Development''),
        (''java'', ''Your Java Projects''),
        (''rust'', ''Your Rust Projects''),
        (''golang'', ''Your Go Projects''),
        (''sql'', ''Your Database Work''),
        (''css'', ''Your Web Styling''),
        (''html'', ''Your Web Development''),
        (''api'', ''Your API Design''),
        (''docker'', ''Your DevOps Work''),
        (''aws'', ''Your Cloud Infrastructure''),
        (''recipe'', ''Your Cooking & Recipes''),
        (''cook'', ''Your Cooking & Recipes''),
        (''food'', ''Your Food & Cooking''),
        (''travel'', ''Your Travel Research''),
        (''trip'', ''Your Travel Plans''),
        (''health'', ''Your Health & Wellness''),
        (''fitness'', ''Your Fitness Journey''),
        (''writing'', ''Your Writing Projects''),
        (''email'', ''Your Email & Communication''),
        (''resume'', ''Your Career Development''),
        (''interview'', ''Your Career Preparation''),
        (''math'', ''Your Math & Calculations''),
        (''data'', ''Your Data Analysis''),
        (''design'', ''Your Design Work''),
        (''business'', ''Your Business Ideas''),
        (''marketing'', ''Your Marketing Strategy''),
        (''finance'', ''Your Financial Planning''),
        (''learning'', ''Your Learning & Education'')]"

datatype labelValue = Label jsstring | InheritedMember jsstring

definition topicTemplate :: "jsstring \<Rightarrow> labelValue option" where
  "topicTemplate keyword =
     (case map_of TOPIC_TEMPLATES keyword of
        Some l \<Rightarrow> Some (Label l)
      | None \<Rightarrow>
          if keyword \<in> set objectPrototypeKeys then Some (InheritedMember keyword) else None)"

fun firstTemplate :: "jsstring list \<Rightarrow> labelValue option" where
  "firstTemplate [] = None"
| "firstTemplate (keyword # rest) =
     (case topicTemplate keyword of Some l \<Rightarrow> Some l | None \<Rightarrow> firstTemplate rest)"

definition generateLabel :: "(jsstring \<Rightarrow> jsstring) \<Rightarrow> jsstring list \<Rightarrow> labelValue" where
  "generateLabel toUpperCase keywords =
     (case firstTemplate keywords of
        Some l \<Rightarrow> l
      | None \<Rightarrow>
          (case keywords of
             [] \<Rightarrow> Label (js ''General'')
           | word # rest \<Rightarrow> Label (js ''Topic: '' @ toUpperCase (take 1 word) @ drop 1 word)))"

fun bump :: "(jsstring \<times> nat) list \<Rightarrow> jsstring \<Rightarrow> (jsstring \<times> nat) list" where
  "bump [] term = [(term, 1)]"
| "bump ((k, n) # rest) term = (if k = term then (k, n + 1) # rest else (k, n) # bump rest term)"

definition digitsValue :: "jsstring \<Rightarrow> nat" where
  "digitsValue s = foldl (\<lambda>acc d. acc * 10 + (d - 48)) 0 s"

definition isArrayIndex :: "jsstring \<Rightarrow> bool" where
  "isArrayIndex s =
     (s \<noteq> [] \<and> list_all (\<lambda>d. 48 \<le> d \<and> d \<le> 57) s \<and> (s = [48] \<or> hd s \<noteq> 48)
      \<and> digitsValue s < 4294967295)"

definition objectEntries :: "(jsstring \<times> 'v) list \<Rightarrow> (jsstring \<times> 'v) list" where
  "objectEntries props =
     sort_key (\<lambda>(k, v). digitsValue k) (filter (\<lambda>(k, v). isArrayIndex k) props)
     @ filter (\<lambda>(k, v). \<not> isArrayIndex k) props"

definition getClusterKeywords :: "nat list \<Rightarrow> (nat \<Rightarrow> jsstring list) \<Rightarrow> jsstring list option" where
  "getClusterKeywords indices topKeywords =
     (let counts = fold (\<lambda>i counts. fold (\<lambda>term counts. bump counts term) (topKeywords i) counts)
                     indices []
      in if list_ex (\<lambda>(term, n). term \<in> set objectPrototypeKeys) counts then None
         else Some (map fst (sort_key (\<lambda>(term, n). - int n) (objectEntries counts))))"

record 'c cluster =
  label :: "labelValue option"
  conversations :: "'c list"
  clusterKeywords :: "jsstring list option"

definition clusterConversations ::
    "(jsstring \<Rightarrow> jsstring) \<Rightarrow> (nat \<Rightarrow> jsstring list) \<Rightarrow> 'c list \<Rightarrow> 'c cluster list" where
  "clusterConversations toUpperCase topKeywords convs =
     (if length convs < 2 then
        [\<lparr> label = Some (Label (js ''All Conversations'')), conversations = convs,
           clusterKeywords = Some [] \<rparr>]
      else
        map (\<lambda>indices.
               let kws = getClusterKeywords indices topKeywords
               in \<lparr> label = map_option (generateLabel toUpperCase) kws,
                    conversations = map (\<lambda>i. convs ! i) indices,
                    clusterKeywords = map_option (take 10) kws \<rparr>)
            (agglomerativeCluster convs topKeywords))"

lemma clusterConversations_members:
  "concat (map conversations (clusterConversations up tk (convs :: 'c list)))
   = (if length convs < 2 then convs
      else map (\<lambda>i. convs ! i) (concat (agglomerativeCluster convs tk)))"
  by (simp add: clusterConversations_def Let_def map_concat comp_def)

subsection \<open>Example keyword sets and conversations\<close>

text \<open>\<open>toUpperCase\<close> on ASCII letters, for the examples.\<close>

definition toUpperCaseAscii :: "jsstring \<Rightarrow> jsstring" where
  "toUpperCaseAscii s = map (\<lambda>c. if 97 \<le> c \<and> c \<le> 122 then c - 32 else c) s"

definition exampleKeywords :: "nat \<Rightarrow> jsstring list" where
  "exampleKeywords i =
     (if i = 0 then [js ''python'', js ''list'']
      else if i = 1 then [js ''python'', js ''sort'']
      else [js ''travel''])"

definition exampleKeywords2 :: "nat \<Rightarrow> jsstring list" where
  "exampleKeywords2 i =
     (if i = 0 then [js ''python'', js ''scripts''] else [js ''travel'', js ''plans''])"

definition pythonConversation :: conversation where
  "pythonConversation =
     \<lparr> convId = js ''c1'', title = js ''Python scripts'', createdAt = None, updatedAt = None,
       messages = [], modelSlugs = [] \<rparr>"

definition sortingConversation :: conversation where
  "sortingConversation =
     \<lparr> convId = js ''c2'', title = js ''Python sort'', createdAt = None, updatedAt = None,
       messages = [], modelSlugs = [] \<rparr>"

definition travelConversation :: conversation where
  "travelConversation =
     \<lparr> convId = js ''c3'', title = js ''Travel plans'', createdAt = None, updatedAt = None,
       messages = [], modelSlugs = [] \<rparr>"

section \<open>Properties of clustering\<close>

text \<open>
  C4. The clusters that \<open>clusterConversations\<close> returns partition its input: their
  conversation lists, concatenated, hold every input conversation exactly as often as the
  input does (once, for distinct conversations), so none is dropped and none is in two
  clusters. For fewer than two conversations the result is the single cluster labelled
  \<open>All Conversations\<close> that holds all of them.
\<close>

theorem clusterConversations_partition:
  "mset (concat (map conversations (clusterConversations toUpperCase topKeywords convs)))
     = mset convs
   \<and> (length convs < 2 \<longrightarrow>
        clusterConversations toUpperCase topKeywords convs
          = [\<lparr> label = Some (Label (js ''All Conversations'')), conversations = convs,
               clusterKeywords = Some [] \<rparr>])"
proof
  show "mset (concat (map conversations (clusterConversations toUpperCase topKeywords convs)))
     = mset convs"
  proof (cases "length convs < 2")
    case True
    then show ?thesis by (simp add: clusterConversations_members)
  next
    case False
    have "mset (map (\<lambda>i. convs ! i) (concat (agglomerativeCluster convs topKeywords)))
        = image_mset (\<lambda>i. convs ! i) (mset [0 ..< length convs])"
      using mset_agglomerativeCluster [of convs topKeywords] by (metis mset_map)
    also have "\<dots> = mset (map (\<lambda>i. convs ! i) [0 ..< length convs])"
      by (simp del: mset_upt)
    also have "\<dots> = mset convs"
      by (simp add: map_nth del: mset_upt)
    finally show ?thesis using False by (simp add: clusterConversations_members)
  qed
  show "length convs < 2 \<longrightarrow>
        clusterConversations toUpperCase topKeywords convs
          = [\<lparr> label = Some (Label (js ''All Conversations'')), conversations = convs,
               clusterKeywords = Some [] \<rparr>]"
    by (simp add: clusterConversations_def)
qed

lemma example_clusters:
  "agglomerativeCluster [pythonConversation, sortingConversation, travelConversation]
     exampleKeywords = [[0, 1], [2]]"
  by code_simp

theorem clusterConversations_partition_witness:
  "length [pythonConversation] < 2
   \<and> clusterConversations toUpperCaseAscii exampleKeywords [pythonConversation]
       = [\<lparr> label = Some (Label (js ''All Conversations'')),
            conversations = [pythonConversation], clusterKeywords = Some [] \<rparr>]
   \<and> map conversations
         (clusterConversations toUpperCaseAscii exampleKeywords
            [pythonConversation, sortingConversation, travelConversation])
       = [[pythonConversation, sortingConversation], [travelConversation]]
   \<and> mset (concat (map conversations
         (clusterConversations toUpperCaseAscii exampleKeywords
            [pythonConversation, sortingConversation, travelConversation])))
       = mset [pythonConversation, sortingConversation, travelConversation]"
proof -
  have one: "length [pythonConversation] < 2" by simp
  have three: "map conversations
         (clusterConversations toUpperCaseAscii exampleKeywords
            [pythonConversation, sortingConversation, travelConversation])
       = [[pythonConversation, sortingConversation], [travelConversation]]"
    by (simp add: clusterConversations_def example_clusters Let_def)
  from clusterConversations_partition
         [of toUpperCaseAscii exampleKeywords "[pythonConversation]"]
       clusterConversations_partition
         [of toUpperCaseAscii exampleKeywords
            "[pythonConversation, sortingConversation, travelConversation]"]
       one three
  show ?thesis by simp
qed

text \<open>
  C5. The claim is that the pooled residual cluster is labelled \<open>General\<close>. For two
  conversations titled \<open>Python scripts\<close> and \<open>Travel plans\<close>, with no messages, steps 1
  to 3 give the keyword sets \<open>{python, scripts}\<close> and \<open>{travel, plans}\<close>; no pair is
  merged, both singletons are pooled into one cluster, and that cluster is labelled from
  its keywords as any other: \<open>Your Python Projects\<close>.
\<close>

theorem clusterConversations_residual_label:
  "agglomerativeCluster [pythonConversation, travelConversation] exampleKeywords2 = [[0, 1]]
   \<and> clusterConversations toUpperCaseAscii exampleKeywords2
         [pythonConversation, travelConversation]
       = [\<lparr> label = Some (Label (js ''Your Python Projects'')),
            conversations = [pythonConversation, travelConversation],
            clusterKeywords = Some [js ''python'', js ''scripts'', js ''travel'', js ''plans''] \<rparr>]"
  by code_simp

section \<open>Output paths (organizer.js)\<close>

subsection \<open>sanitizeFilename\<close>









subsection \<open>deduplicatePath\<close>







subsection \<open>Example titles and paths\<close>




section \<open>Properties of the output paths\<close>











end
